theory Spec2Isabelle
  imports Main
begin

section \<open>Paths\<close>

text \<open>
  A \<^verbatim>\<open>pathlib.PosixPath\<close> is modelled by its \<^verbatim>\<open>parts\<close> tuple: the list of its
  segments, headed by the root marker \<^verbatim>\<open>/\<close> (or \<^verbatim>\<open>//\<close>) when the path is absolute.
  \<^verbatim>\<open>Path('.')\<close> has no parts. Equality of paths is equality of the parts, as in pathlib.
\<close>

type_synonym path = "string list"

text \<open>\<^verbatim>\<open>str.split('/')\<close>: the pieces between the separators, empty pieces included.\<close>

fun split_sep :: "string \<Rightarrow> string list" where
  "split_sep [] = [[]]"
| "split_sep (c # cs) =
     (if c = CHR ''/'' then [] # split_sep cs
      else (case split_sep cs of [] \<Rightarrow> [[c]] | x # xs \<Rightarrow> (c # x) # xs))"

text \<open>\<^verbatim>\<open>"/".join(xs)\<close>.\<close>

fun join_sep :: "string list \<Rightarrow> string" where
  "join_sep [] = []"
| "join_sep [x] = x"
| "join_sep (x # y # ys) = x @ CHR ''/'' # join_sep (y # ys)"

text \<open>
  \<^verbatim>\<open>pathlib.Path(s)\<close> for one string: the POSIX flavour's \<^verbatim>\<open>splitroot\<close> (exactly two
  leading slashes give the root \<^verbatim>\<open>//\<close>, any other positive number the root \<^verbatim>\<open>/\<close>)
  followed by \<^verbatim>\<open>parse_parts\<close>, which drops empty and \<^verbatim>\<open>.\<close> segments and keeps
  \<^verbatim>\<open>..\<close>.
\<close>

definition Path :: "string \<Rightarrow> path" where
  "Path s =
     (let n = length (takeWhile (\<lambda>c. c = CHR ''/'') s);
          rel = dropWhile (\<lambda>c. c = CHR ''/'') s;
          root = (if n = 0 then [] else if n = 2 then [''//''] else [''/''])
      in root @ filter (\<lambda>x. x \<noteq> [] \<and> x \<noteq> ''.'') (split_sep rel))"

definition is_absolute :: "path \<Rightarrow> bool" where
  "is_absolute p = (case p of [] \<Rightarrow> False | r # _ \<Rightarrow> r = ''/'' \<or> r = ''//'')"

text \<open>\<^verbatim>\<open>str(p)\<close> and \<^verbatim>\<open>p.as_posix()\<close>.\<close>

definition as_posix :: "path \<Rightarrow> string" where
  "as_posix p =
     (case p of [] \<Rightarrow> ''.''
      | r # rest \<Rightarrow> if is_absolute p then r @ join_sep rest else join_sep p)"

text \<open>\<^verbatim>\<open>a / b\<close>: an absolute right operand replaces the left one.\<close>

definition joinpath :: "path \<Rightarrow> path \<Rightarrow> path" where
  "joinpath a b = (if is_absolute b then b else a @ b)"

text \<open>\<^verbatim>\<open>p.parent\<close>: the root is its own parent, and so is the empty path.\<close>

definition parent :: "path \<Rightarrow> path" where
  "parent p = (if length p = 1 \<and> is_absolute p then p else butlast p)"

text \<open>
  \<^verbatim>\<open>p.absolute()\<close>: prefixes the working directory, without normalising \<^verbatim>\<open>..\<close>.
  The working directory is passed as the path \<^verbatim>\<open>Path(os.getcwd())\<close>.
\<close>

definition absolute :: "path \<Rightarrow> path \<Rightarrow> path" where
  "absolute wd p = (if is_absolute p then p else wd @ p)"

section \<open>Errors\<close>

datatype errno = ENOENT | ENOTDIR | EEXIST | EISDIR | ELOOP | EPERM | SameFileError

datatype error =
    IndexError
  | FileReplacementError string
  | DirectoryReplacementError string
  | OSError errno
  | RecursionError
  | ReError string
  | SystemExit nat

section \<open>Path arithmetic\<close>

text \<open>
  The loop shared by \<^verbatim>\<open>remove_front_dir\<close> and \<^verbatim>\<open>relative_path\<close>:
  \<^verbatim>\<open>while len(head) > 0 and len(result) > 0 and head[0] == result[0]: del head[0], result[0]\<close>.
\<close>

fun strip_common :: "string list \<Rightarrow> string list \<Rightarrow> string list \<times> string list" where
  "strip_common (h # hs) (r # rs) =
     (if h = r then strip_common hs rs else (h # hs, r # rs))"
| "strip_common hs rs = (hs, rs)"

text \<open>
  \<^verbatim>\<open>remove_front_dir(head_path, item)\<close>. After the loop the source reads \<^verbatim>\<open>result[0]\<close>
  without a guard, which raises \<^verbatim>\<open>IndexError\<close> on an empty remainder. The result is
  built by joining the remaining segments into a string and parsing that string again.
\<close>

definition remove_front_dir :: "path \<Rightarrow> path \<Rightarrow> error + path" where
  "remove_front_dir head_path item =
     (case snd (strip_common head_path item) of
        [] \<Rightarrow> Inl IndexError
      | r # rs \<Rightarrow>
          if r = ''/'' then Inr (Path (CHR ''/'' # join_sep (r # rs)))
          else Inr (Path (join_sep (r # rs))))"

text \<open>
  \<^verbatim>\<open>relative_path(src, dest)\<close>, with the working directory that \<^verbatim>\<open>absolute()\<close> reads.
  The test \<^verbatim>\<open>dest.parts[0] == "/"\<close> raises \<^verbatim>\<open>IndexError\<close> when \<^verbatim>\<open>dest\<close> has no parts.
\<close>

definition relative_path :: "path \<Rightarrow> path \<Rightarrow> path \<Rightarrow> error + path" where
  "relative_path wd src dest =
     (let slist = absolute wd src; dlist = absolute wd dest in
      case dest of
        [] \<Rightarrow> Inl IndexError
      | d # _ \<Rightarrow>
          if d = ''/'' then Inr dest
          else (let rest = strip_common slist dlist;
                    result = Path (join_sep (replicate (length (fst rest)) ''..''))
                in Inr (joinpath result (Path (join_sep (snd rest))))))"

section \<open>The filesystem\<close>

text \<open>
  The filesystem is an association list from canonical locations (the names from the
  root directory down, the root directory being the empty list and always a directory)
  to nodes. The order of the list is the order in which a directory lists its entries.
  A regular file carries its contents and a symbolic link the text stored in it.
  Hard-link aliasing between two names of one file is not tracked.
\<close>

datatype node = File string | Dir | Symlink string

type_synonym filesystem = "(string list \<times> node) list"

definition node_at :: "filesystem \<Rightarrow> string list \<Rightarrow> node option" where
  "node_at F loc = (if loc = [] then Some Dir else map_of F loc)"

text \<open>Storing a node: in place when the location is taken, as the last entry otherwise.\<close>

fun put :: "string list \<Rightarrow> node \<Rightarrow> filesystem \<Rightarrow> filesystem" where
  "put loc n [] = [(loc, n)]"
| "put loc n ((k, v) # F) = (if k = loc then (k, n) # F else (k, v) # put loc n F)"

definition listdir :: "filesystem \<Rightarrow> string list \<Rightarrow> string list" where
  "listdir F d = map (\<lambda>e. last (fst e)) (filter (\<lambda>e. fst e \<noteq> [] \<and> butlast (fst e) = d) F)"

text \<open>
  Path resolution as the kernel does it. \<open>Found loc n\<close>: the path names the node \<open>n\<close>
  at \<open>loc\<close>. \<open>Missing loc\<close>: every directory on the way exists and the last name
  is free, so an entry can be created at \<open>loc\<close>. \<open>Failed e\<close>: resolution fails with
  \<open>e\<close>. Symbolic links in the middle of a path are always followed, the last one only
  when \<open>follow\<close> is set; at most \<open>k\<close> links are followed before \<^verbatim>\<open>ELOOP\<close>.
\<close>

datatype lookup = Found "string list" node | Missing "string list" | Failed errno

definition link_parts :: "string \<Rightarrow> string list" where
  "link_parts t = (if is_absolute (Path t) then tl (Path t) else Path t)"

fun walk_path :: "filesystem \<Rightarrow> nat \<Rightarrow> bool \<Rightarrow> string list \<Rightarrow> string list \<Rightarrow> lookup" where
  "walk_path F k follow cur [] =
     (case node_at F cur of None \<Rightarrow> Failed ENOENT | Some n \<Rightarrow> Found cur n)"
| "walk_path F k follow cur (s # rest) =
     (if s = ''..'' then walk_path F k follow (butlast cur) rest
      else (case node_at F (cur @ [s]) of
          None \<Rightarrow> if rest = [] then Missing (cur @ [s]) else Failed ENOENT
        | Some Dir \<Rightarrow> walk_path F k follow (cur @ [s]) rest
        | Some (File c) \<Rightarrow> if rest = [] then Found (cur @ [s]) (File c) else Failed ENOTDIR
        | Some (Symlink t) \<Rightarrow>
            if rest = [] \<and> \<not> follow then Found (cur @ [s]) (Symlink t)
            else (case k of
                0 \<Rightarrow> Failed ELOOP
              | Suc k' \<Rightarrow>
                  walk_path F k' follow (if is_absolute (Path t) then [] else cur)
                    (link_parts t @ rest))))"

definition SYMLOOP_MAX :: nat where
  "SYMLOOP_MAX = 40"

definition namei :: "filesystem \<Rightarrow> path \<Rightarrow> bool \<Rightarrow> path \<Rightarrow> lookup" where
  "namei F wd follow p =
     (let a = absolute wd p
      in walk_path F SYMLOOP_MAX follow [] (if is_absolute a then tl a else a))"

section \<open>The process state\<close>

text \<open>
  A compiled regular expression is modelled by what its \<^verbatim>\<open>match\<close> method decides:
  whether the expression matches at the start of a string. \<^verbatim>\<open>re.compile\<close> is a
  parameter of the model; it gives \<open>None\<close> where Python raises \<^verbatim>\<open>re.error\<close>.
\<close>

type_synonym regex = "string \<Rightarrow> bool"

type_synonym re_compile = "string \<Rightarrow> regex option"

text \<open>
  The state a run reads and writes: the filesystem, the working directory, the lines
  printed so far, the module's global \<^verbatim>\<open>cache\<close> dictionary, and the keys stored
  into that dictionary so far, in order (one entry per assignment \<^verbatim>\<open>cache[k] = v\<close>).
\<close>

record world =
  fs :: filesystem
  cwd :: path
  stdout :: "string list"
  cache :: "string \<Rightarrow> regex list option"
  cache_stores :: "string list"

text \<open>A call either raises, leaving the state it reached, or returns a state.\<close>

type_synonym result = "(error \<times> world) + world"

definition print :: "string \<Rightarrow> world \<Rightarrow> world" where
  "print s w = w\<lparr>stdout := stdout w @ [s]\<rparr>"

definition stat :: "world \<Rightarrow> path \<Rightarrow> lookup" where
  "stat w p = namei (fs w) (cwd w) True p"

definition lstat :: "world \<Rightarrow> path \<Rightarrow> lookup" where
  "lstat w p = namei (fs w) (cwd w) False p"

text \<open>
  \<^verbatim>\<open>Path.exists\<close>, \<^verbatim>\<open>Path.is_dir\<close> and \<^verbatim>\<open>os.path.isfile\<close> follow symbolic links
  (they call \<^verbatim>\<open>stat\<close>); \<^verbatim>\<open>Path.is_symlink\<close> does not (it calls \<^verbatim>\<open>lstat\<close>). All
  of them answer \<^verbatim>\<open>False\<close> when the resolution fails.
\<close>

definition exists :: "world \<Rightarrow> path \<Rightarrow> bool" where
  "exists w p = (case stat w p of Found _ _ \<Rightarrow> True | _ \<Rightarrow> False)"

definition is_dir :: "world \<Rightarrow> path \<Rightarrow> bool" where
  "is_dir w p = (case stat w p of Found _ Dir \<Rightarrow> True | _ \<Rightarrow> False)"

definition is_file :: "world \<Rightarrow> path \<Rightarrow> bool" where
  "is_file w p = (case stat w p of Found _ (File _) \<Rightarrow> True | _ \<Rightarrow> False)"

definition is_symlink :: "world \<Rightarrow> path \<Rightarrow> bool" where
  "is_symlink w p = (case lstat w p of Found _ (Symlink _) \<Rightarrow> True | _ \<Rightarrow> False)"

text \<open>
  \<^verbatim>\<open>path.iterdir()\<close>: the entries of the directory as \<^verbatim>\<open>path / name\<close>, listed once
  when the iteration starts.
\<close>

definition iterdir :: "world \<Rightarrow> path \<Rightarrow> error + path list" where
  "iterdir w p =
     (case stat w p of
        Found d Dir \<Rightarrow> Inr (map (\<lambda>name. p @ [name]) (listdir (fs w) d))
      | Found _ _ \<Rightarrow> Inl (OSError ENOTDIR)
      | Missing _ \<Rightarrow> Inl (OSError ENOENT)
      | Failed e \<Rightarrow> Inl (OSError e))"

text \<open>Creating an entry at a path whose last name must be free: \<^verbatim>\<open>mkdir\<close>, \<^verbatim>\<open>symlink\<close>, \<^verbatim>\<open>link\<close>.\<close>

definition create_at :: "path \<Rightarrow> node \<Rightarrow> world \<Rightarrow> result" where
  "create_at p n w =
     (case lstat w p of
        Found _ _ \<Rightarrow> Inl (OSError EEXIST, w)
      | Missing loc \<Rightarrow> Inr (w\<lparr>fs := put loc n (fs w)\<rparr>)
      | Failed e \<Rightarrow> Inl (OSError e, w))"

text \<open>\<^verbatim>\<open>path.mkdir()\<close>.\<close>

definition mkdir :: "path \<Rightarrow> world \<Rightarrow> result" where
  "mkdir p w = create_at p Dir w"

text \<open>\<^verbatim>\<open>self.symlink_to(target)\<close>, that is \<^verbatim>\<open>os.symlink(target, self)\<close>: \<open>self\<close> becomes a link storing \<open>str(target)\<close>.\<close>

definition symlink_to :: "path \<Rightarrow> path \<Rightarrow> world \<Rightarrow> result" where
  "symlink_to self target w = create_at self (Symlink (as_posix target)) w"

text \<open>
  \<^verbatim>\<open>os.link(src, dst)\<close>: \<open>dst\<close> becomes another name of the existing \<open>src\<close>.
\<close>

definition os_link :: "path \<Rightarrow> path \<Rightarrow> world \<Rightarrow> result" where
  "os_link src dst w =
     (case lstat w src of
        Found _ Dir \<Rightarrow> Inl (OSError EPERM, w)
      | Found _ n \<Rightarrow> create_at dst n w
      | Missing _ \<Rightarrow> Inl (OSError ENOENT, w)
      | Failed e \<Rightarrow> Inl (OSError e, w))"

text \<open>
  \<^verbatim>\<open>self.link_to(target)\<close>. pathlib (3.8 to 3.11, the versions that have the method)
  documents it as "Make the target path a hard link pointing to this path. Note this
  function does not make this path a hard link to target, despite the implication of
  the function and argument names": it is \<^verbatim>\<open>os.link(self, target)\<close>.
\<close>

definition link_to :: "path \<Rightarrow> path \<Rightarrow> world \<Rightarrow> result" where
  "link_to self target w = os_link self target w"

text \<open>
  \<^verbatim>\<open>shutil.copyfile(src, dst)\<close>: refuses two names of the same file, reads \<open>src\<close>
  through symbolic links and writes \<open>dst\<close> through symbolic links, creating it when its
  last name is free and replacing its contents when it is a regular file.
\<close>

definition samefile :: "world \<Rightarrow> path \<Rightarrow> path \<Rightarrow> bool" where
  "samefile w a b =
     (case stat w a of
        Found la _ \<Rightarrow> (case stat w b of Found lb _ \<Rightarrow> la = lb | _ \<Rightarrow> False)
      | _ \<Rightarrow> False)"

definition copyfile :: "path \<Rightarrow> path \<Rightarrow> world \<Rightarrow> result" where
  "copyfile src dst w =
     (if samefile w src dst then Inl (OSError SameFileError, w)
      else (case stat w src of
          Found _ (File c) \<Rightarrow>
            (case stat w dst of
               Found loc (File _) \<Rightarrow> Inr (w\<lparr>fs := put loc (File c) (fs w)\<rparr>)
             | Found _ Dir \<Rightarrow> Inl (OSError EISDIR, w)
             | Found _ (Symlink _) \<Rightarrow> Inl (OSError ELOOP, w)
             | Missing loc \<Rightarrow> Inr (w\<lparr>fs := put loc (File c) (fs w)\<rparr>)
             | Failed e \<Rightarrow> Inl (OSError e, w))
        | Found _ Dir \<Rightarrow> Inl (OSError EISDIR, w)
        | Found _ (Symlink _) \<Rightarrow> Inl (OSError ELOOP, w)
        | Missing _ \<Rightarrow> Inl (OSError ENOENT, w)
        | Failed e \<Rightarrow> Inl (OSError e, w)))"

section \<open>The executors\<close>

datatype executor = DryRunExecutor | LinkExecutor bool

text \<open>\<^verbatim>\<open>DryRunExecutor\<close>: the same checks as the mutating executor, then a printed line.\<close>

definition DryRunExecutor_mkdir :: "path \<Rightarrow> world \<Rightarrow> result" where
  "DryRunExecutor_mkdir p w =
     (if exists w p then
        (if is_dir w p then Inr w
         else Inl (FileReplacementError (as_posix p),
                   print (''ERROR(mkdir) '' @ as_posix p @ '' exists'') w))
      else Inr (print (''mkdir '' @ as_posix p) w))"

definition DryRunExecutor_link :: "path \<Rightarrow> path \<Rightarrow> world \<Rightarrow> result" where
  "DryRunExecutor_link src target w =
     (if exists w target \<or> is_symlink w target then
        Inl (FileReplacementError (as_posix target),
             print (''ERROR(link): file '' @ as_posix target @ '' exists.'') w)
      else Inr (print (''link '' @ as_posix src @ '' '' @ as_posix target) w))"

definition DryRunExecutor_copy :: "path \<Rightarrow> path \<Rightarrow> world \<Rightarrow> result" where
  "DryRunExecutor_copy src target w =
     (if exists w target \<and> is_dir w target then
        Inl (DirectoryReplacementError (as_posix target),
             print (''ERROR(copy): diretory '' @ as_posix target @ '' exists.'') w)
      else Inr (print (''copy '' @ as_posix src @ '' '' @ as_posix target) w))"

text \<open>\<^verbatim>\<open>LinkExecutor\<close>, holding the flag \<^verbatim>\<open>hard\<close>.\<close>

definition LinkExecutor_mkdir :: "path \<Rightarrow> world \<Rightarrow> result" where
  "LinkExecutor_mkdir p w =
     (if exists w p then
        (if is_dir w p then Inr w
         else Inl (FileReplacementError (as_posix p),
                   print (''ERROR(mkdir) '' @ as_posix p @ '' exists'') w))
      else mkdir p w)"

definition LinkExecutor_link :: "bool \<Rightarrow> path \<Rightarrow> path \<Rightarrow> world \<Rightarrow> result" where
  "LinkExecutor_link hard src target w =
     (if exists w target \<or> is_symlink w target then
        Inl (FileReplacementError (as_posix target),
             print (''ERROR(link): file '' @ as_posix target @ '' exists.'') w)
      else (case relative_path (cwd w) (parent target) src of
          Inl e \<Rightarrow> Inl (e, w)
        | Inr rel \<Rightarrow> if hard then link_to target rel w else symlink_to target rel w))"

definition LinkExecutor_copy :: "path \<Rightarrow> path \<Rightarrow> world \<Rightarrow> result" where
  "LinkExecutor_copy src target w =
     (if exists w target \<and> is_dir w target then
        Inl (DirectoryReplacementError (as_posix target),
             print (''ERROR(copy): diretory '' @ as_posix target @ '' exists.'') w)
      else copyfile src target w)"

text \<open>Method dispatch on the executor object.\<close>

fun executor_mkdir :: "executor \<Rightarrow> path \<Rightarrow> world \<Rightarrow> result" where
  "executor_mkdir DryRunExecutor p w = DryRunExecutor_mkdir p w"
| "executor_mkdir (LinkExecutor hard) p w = LinkExecutor_mkdir p w"

fun executor_link :: "executor \<Rightarrow> path \<Rightarrow> path \<Rightarrow> world \<Rightarrow> result" where
  "executor_link DryRunExecutor src target w = DryRunExecutor_link src target w"
| "executor_link (LinkExecutor hard) src target w = LinkExecutor_link hard src target w"

fun executor_copy :: "executor \<Rightarrow> path \<Rightarrow> path \<Rightarrow> world \<Rightarrow> result" where
  "executor_copy DryRunExecutor src target w = DryRunExecutor_copy src target w"
| "executor_copy (LinkExecutor hard) src target w = LinkExecutor_copy src target w"

section \<open>The tree walker\<close>

text \<open>The \<^verbatim>\<open>argparse.Namespace\<close> that \<^verbatim>\<open>get_args\<close> returns.\<close>

record args =
  source :: path
  destination :: path
  hard_links :: bool
  copy :: "string list list"
  copy_list_file :: "string list"
  ignore :: "string list list"
  ignore_list_file :: "string list"
  dry_run :: bool

definition executor_of :: "args \<Rightarrow> executor" where
  "executor_of a = (if dry_run a then DryRunExecutor else LinkExecutor (hard_links a))"

text \<open>\<^verbatim>\<open>[re.compile(regexp) for regexp in patterns]\<close>, raising at the first bad pattern.\<close>

fun compile_all :: "re_compile \<Rightarrow> string list \<Rightarrow> error + regex list" where
  "compile_all rc [] = Inr []"
| "compile_all rc (p # ps) =
     (case rc p of
        None \<Rightarrow> Inl (ReError p)
      | Some r \<Rightarrow> (case compile_all rc ps of Inl e \<Rightarrow> Inl e | Inr rs \<Rightarrow> Inr (r # rs)))"

text \<open>
  The two blocks that open \<^verbatim>\<open>create_links\<close>. Each tests one key of \<^verbatim>\<open>cache\<close>
  (\<^verbatim>\<open>"cl.cp"\<close>, \<^verbatim>\<open>"cl.ignore"\<close>) and stores under another
  (\<^verbatim>\<open>"cl.cp_re"\<close>, \<^verbatim>\<open>"cl.ignore_re"\<close>), as the source does.
\<close>

definition cache_block ::
  "re_compile \<Rightarrow> string \<Rightarrow> string \<Rightarrow> string list \<Rightarrow> world \<Rightarrow> (error \<times> world) + (regex list \<times> world)" where
  "cache_block rc tested stored patterns w =
     (if cache w tested = None then
        (case compile_all rc patterns of
           Inl e \<Rightarrow> Inl (e, w)
         | Inr rs \<Rightarrow>
             Inr (rs, w\<lparr>cache := (cache w)(stored := Some rs),
                        cache_stores := cache_stores w @ [stored]\<rparr>))
      else Inr (case cache w stored of None \<Rightarrow> [] | Some rs \<Rightarrow> rs, w))"

definition copy_files_block :: "re_compile \<Rightarrow> args \<Rightarrow> world \<Rightarrow> (error \<times> world) + (regex list \<times> world)" where
  "copy_files_block rc a w =
     cache_block rc ''cl.cp'' ''cl.cp_re'' (concat (copy a) @ copy_list_file a) w"

definition ignore_files_block :: "re_compile \<Rightarrow> args \<Rightarrow> world \<Rightarrow> (error \<times> world) + (regex list \<times> world)" where
  "ignore_files_block rc a w =
     cache_block rc ''cl.ignore'' ''cl.ignore_re'' (concat (ignore a) @ ignore_list_file a) w"

text \<open>The two inner loops: does any expression of the list match the string.\<close>

fun any_match :: "regex list \<Rightarrow> string \<Rightarrow> bool" where
  "any_match [] s = False"
| "any_match (r # rs) s = (if r s then True else any_match rs s)"

text \<open>
  \<^verbatim>\<open>create_links(args, path)\<close>, the loop over \<^verbatim>\<open>path.iterdir()\<close> and the body of
  that loop. The first argument is the regular-expression compiler; the second bounds
  the nesting of calls, as the interpreter's recursion limit does: a call with no
  depth left raises \<^verbatim>\<open>RecursionError\<close>.
\<close>

function (sequential) create_links :: "re_compile \<Rightarrow> nat \<Rightarrow> args \<Rightarrow> path option \<Rightarrow> world \<Rightarrow> result"
  and for_items ::
    "re_compile \<Rightarrow> nat \<Rightarrow> args \<Rightarrow> regex list \<Rightarrow> regex list \<Rightarrow> path list \<Rightarrow> world \<Rightarrow> result"
  and loop_body ::
    "re_compile \<Rightarrow> nat \<Rightarrow> args \<Rightarrow> regex list \<Rightarrow> regex list \<Rightarrow> path \<Rightarrow> world \<Rightarrow> result"
where
  "create_links rc 0 a path w = Inl (RecursionError, w)"
| "create_links rc (Suc n) a path w =
     (case copy_files_block rc a w of
        Inl e \<Rightarrow> Inl e
      | Inr (copy_files_re, w1) \<Rightarrow>
          (case ignore_files_block rc a w1 of
             Inl e \<Rightarrow> Inl e
           | Inr (ignore_files_re, w2) \<Rightarrow>
               (case iterdir w2 (case path of None \<Rightarrow> source a | Some p \<Rightarrow> p) of
                  Inl e \<Rightarrow> Inl (e, w2)
                | Inr items \<Rightarrow> for_items rc n a copy_files_re ignore_files_re items w2)))"
| "for_items rc n a copy_files_re ignore_files_re [] w = Inr w"
| "for_items rc n a copy_files_re ignore_files_re (item # items) w =
     (case loop_body rc n a copy_files_re ignore_files_re item w of
        Inl e \<Rightarrow> Inl e
      | Inr w' \<Rightarrow> for_items rc n a copy_files_re ignore_files_re items w')"
| "loop_body rc n a copy_files_re ignore_files_re item w =
     (case remove_front_dir (source a) item of
        Inl e \<Rightarrow> Inl (e, w)
      | Inr sub \<Rightarrow>
          (let target = joinpath (destination a) sub in
           if any_match ignore_files_re (as_posix item) then Inr w
           else (let copy_required = any_match copy_files_re (as_posix item) in
             if is_dir w item then
               (if item \<noteq> destination a then
                  (case executor_mkdir (executor_of a) target w of
                     Inl e \<Rightarrow> Inl e
                   | Inr w' \<Rightarrow> create_links rc n a (Some item) w')
                else Inr w)
             else if copy_required then executor_copy (executor_of a) item target w
             else executor_link (executor_of a) item target w)))"
  by pat_completeness auto
termination
  by (relation "measures [
        (\<lambda>x. case x of Inl (rc, n, a, p, w) \<Rightarrow> n
                 | Inr (Inl (rc, n, a, c, i, items, w)) \<Rightarrow> n
                 | Inr (Inr (rc, n, a, c, i, item, w)) \<Rightarrow> n),
        (\<lambda>x. case x of Inl (rc, n, a, p, w) \<Rightarrow> 0
                 | Inr (Inl (rc, n, a, c, i, items, w)) \<Rightarrow> 2 + length items
                 | Inr (Inr (rc, n, a, c, i, item, w)) \<Rightarrow> 1)]") auto

section \<open>Reading a pattern file\<close>

text \<open>
  \<^verbatim>\<open>fn.readline()\<close> on the text that is left of the file: the line up to and with
  its newline, or what is left when no newline follows, or the empty string at the end
  of the file. The text is the file as Python's text mode hands it over.
\<close>

fun readline :: "string \<Rightarrow> string \<times> string" where
  "readline [] = ([], [])"
| "readline (c # cs) =
     (if c = CHR 0x0A then ([c], cs)
      else (case readline cs of (l, r) \<Rightarrow> (c # l, r)))"

text \<open>\<^verbatim>\<open>line.rstrip('\n')\<close>.\<close>

definition rstrip_newline :: "string \<Rightarrow> string" where
  "rstrip_newline s = rev (dropWhile (\<lambda>c. c = CHR 0x0A) (rev s))"

text \<open>The characters \<^verbatim>\<open>\s\<close> matches, among the first 256 code points.\<close>

definition isspace :: "char \<Rightarrow> bool" where
  "isspace c = (of_char c \<in> {9, 10, 11, 12, 13, 28, 29, 30, 31, 32, 133, 160 :: nat})"

text \<open>
  \<^verbatim>\<open>re.compile(r"^#.*$").match(s)\<close>: a \<^verbatim>\<open>#\<close>, then anything but a newline up to the end
  of the string or to a newline that ends it.
\<close>

definition re_comment_match :: "string \<Rightarrow> bool" where
  "re_comment_match s =
     (case s of
        [] \<Rightarrow> False
      | c # cs \<Rightarrow>
          c = CHR ''#'' \<and>
          (let r = dropWhile (\<lambda>c. c \<noteq> CHR 0x0A) cs in r = [] \<or> r = [CHR 0x0A]))"

text \<open>\<^verbatim>\<open>re.compile(r"^\s*$").match(s)\<close>: nothing but white space.\<close>

definition re_empty_match :: "string \<Rightarrow> bool" where
  "re_empty_match s = list_all isspace s"

text \<open>
  The loop of \<^verbatim>\<open>file_as_list\<close>: \<^verbatim>\<open>while line: ...; line = fn.readline().rstrip('\n')\<close>.
  It runs while the stripped line is not empty.
\<close>

function read_loop :: "string \<Rightarrow> string \<Rightarrow> string list \<Rightarrow> string list" where
  "read_loop line rest result =
     (if line = [] then result
      else read_loop (rstrip_newline (fst (readline rest))) (snd (readline rest))
             (if \<not> re_comment_match line \<and> \<not> re_empty_match line then result @ [line]
              else result))"
  by pat_completeness auto
termination
proof (relation "measure (\<lambda>(line, rest, result). length rest + (if line = [] then 0 else 1))")
  show "wf (measure (\<lambda>(line, rest, result). length rest + (if line = [] then 0 else 1)))"
    by simp
next
  fix line rest :: string and result :: "string list"
  assume nonempty: "line \<noteq> []"
  have no_longer: "length (snd (readline r)) \<le> length r" for r
    by (induction r) (auto split: prod.splits)
  have shorter: "r \<noteq> [] \<Longrightarrow> length (snd (readline r)) < length r" for r
    using no_longer [of "tl r"] by (cases r) (auto split: prod.splits)
  show "((rstrip_newline (fst (readline rest)), snd (readline rest),
          if \<not> re_comment_match line \<and> \<not> re_empty_match line then result @ [line] else result),
         line, rest, result)
        \<in> measure (\<lambda>(line, rest, result). length rest + (if line = [] then 0 else 1))"
  proof (cases rest)
    case Nil
    then show ?thesis using nonempty by (simp add: rstrip_newline_def)
  next
    case (Cons c cs)
    then have "length (snd (readline rest)) < length rest" using shorter by blast
    then show ?thesis using nonempty by simp
  qed
qed

declare read_loop.simps [simp del]

text \<open>
  \<^verbatim>\<open>file_as_list(filename)\<close>: exits with status 1 unless the name is an existing
  regular file, and returns the patterns read from it otherwise.
\<close>

definition file_as_list :: "world \<Rightarrow> string \<Rightarrow> (error \<times> world) + string list" where
  "file_as_list w filename =
     (if \<not> (exists w (Path filename) \<and> is_file w (Path filename)) then
        Inl (SystemExit 1, print (''ERROR: '' @ filename @ '' is not a readable.'') w)
      else (case stat w (Path filename) of
          Found _ (File content) \<Rightarrow>
            Inr (read_loop (rstrip_newline (fst (readline content))) (snd (readline content)) [])
        | _ \<Rightarrow> Inl (OSError ENOENT, w)))"

text \<open>
  What the specification says of a pattern file: one pattern for each line that is
  neither empty nor a comment, wherever the line stands.
\<close>

fun text_lines :: "string \<Rightarrow> string list" where
  "text_lines [] = []"
| "text_lines (c # cs) =
     (if c = CHR 0x0A then [] # text_lines cs
      else (case text_lines cs of [] \<Rightarrow> [[c]] | l # ls \<Rightarrow> (c # l) # ls))"

definition spec_pattern_lines :: "string \<Rightarrow> string list" where
  "spec_pattern_lines content =
     filter (\<lambda>l. \<not> re_comment_match l \<and> \<not> re_empty_match l) (text_lines content)"

section \<open>Observing a call\<close>

text \<open>The exception a call raised, if any, and the state it left either way.\<close>

definition raised :: "result \<Rightarrow> error option" where
  "raised r = (case r of Inl (e, w) \<Rightarrow> Some e | Inr w \<Rightarrow> None)"

definition final :: "result \<Rightarrow> world" where
  "final r = (case r of Inl (e, w) \<Rightarrow> w | Inr w \<Rightarrow> w)"

text \<open>
  The conflict a call raised, if any: \<^verbatim>\<open>FileReplacementError\<close> and
  \<^verbatim>\<open>DirectoryReplacementError\<close> are the program's conflict errors.
\<close>

definition conflict_of :: "result \<Rightarrow> error option" where
  "conflict_of r =
     (case raised r of
        Some (FileReplacementError s) \<Rightarrow> Some (FileReplacementError s)
      | Some (DirectoryReplacementError s) \<Rightarrow> Some (DirectoryReplacementError s)
      | _ \<Rightarrow> None)"

text \<open>A path segment that pathlib keeps as it is: not empty, not \<^verbatim>\<open>.\<close>, without a slash.\<close>

definition clean_segment :: "string \<Rightarrow> bool" where
  "clean_segment x = (x \<noteq> [] \<and> x \<noteq> ''.'' \<and> CHR ''/'' \<notin> set x)"

section \<open>Concrete runs\<close>

text \<open>
  The inputs of the examples below. Every process starts in the directory \<^verbatim>\<open>/w\<close>
  with nothing printed and an empty \<^verbatim>\<open>cache\<close>.
\<close>

definition started_in_w :: "filesystem \<Rightarrow> world" where
  "started_in_w F =
     \<lparr>fs = F, cwd = [''/'', ''w''], stdout = [], cache = (\<lambda>k. None), cache_stores = []\<rparr>"

text \<open>
  An instance of the compiler for the examples: a pattern without metacharacters
  matches the strings that start with it.
\<close>

definition literal_re :: re_compile where
  "literal_re p = Some (\<lambda>s. take (length p) s = p)"

text \<open>\<^verbatim>\<open>deeplink -n in out\<close>, and the same without \<^verbatim>\<open>-n\<close> and with \<^verbatim>\<open>-l\<close>.\<close>

definition in_to_out :: args where
  "in_to_out =
     \<lparr>source = [''in''], destination = [''out''], hard_links = False, copy = [],
      copy_list_file = [], ignore = [], ignore_list_file = [], dry_run = True\<rparr>"

definition in_to_out_really :: args where
  "in_to_out_really = in_to_out\<lparr>dry_run := False\<rparr>"

definition in_to_out_hard :: args where
  "in_to_out_hard = in_to_out\<lparr>dry_run := False, hard_links := True\<rparr>"

text \<open>\<^verbatim>\<open>in/a/x\<close> beside an empty \<^verbatim>\<open>out\<close>.\<close>

definition plain_fs :: filesystem where
  "plain_fs =
     [([''w''], Dir), ([''w'', ''in''], Dir), ([''w'', ''in'', ''a''], Dir),
      ([''w'', ''in'', ''a'', ''x''], File ''1''), ([''w'', ''out''], Dir)]"

text \<open>The source entry \<^verbatim>\<open>in/s\<close> is a symbolic link to the directory \<^verbatim>\<open>/w/d\<close>, which holds \<^verbatim>\<open>x\<close>.\<close>

definition symlinked_dir_fs :: filesystem where
  "symlinked_dir_fs =
     [([''w''], Dir), ([''w'', ''d''], Dir), ([''w'', ''d'', ''x''], File ''1''),
      ([''w'', ''in''], Dir), ([''w'', ''in'', ''s''], Symlink ''../d''),
      ([''w'', ''in'', ''t''], Symlink ''nowhere''), ([''w'', ''out''], Dir)]"

text \<open>The destination \<^verbatim>\<open>in/out\<close> lies in the source \<^verbatim>\<open>in\<close>: \<^verbatim>\<open>deeplink in in/out\<close>.\<close>

definition nested_fs :: filesystem where
  "nested_fs = [([''w''], Dir), ([''w'', ''in''], Dir), ([''w'', ''in'', ''out''], Dir)]"

definition in_to_nested :: args where
  "in_to_nested = in_to_out\<lparr>destination := [''in'', ''out'']\<rparr>"

definition in_to_nested_really :: args where
  "in_to_nested_really = in_to_out\<lparr>destination := [''in'', ''out''], dry_run := False\<rparr>"



text \<open>
  A pattern file of four lines: a comment, the pattern \<^verbatim>\<open>a\<close>, an empty line, the
  pattern \<^verbatim>\<open>b\<close>.
\<close>

definition pattern_text :: string where
  "pattern_text = ''#c'' @ [CHR 0x0A] @ ''a'' @ [CHR 0x0A] @ [CHR 0x0A] @ ''b'' @ [CHR 0x0A]"

definition pattern_fs :: filesystem where
  "pattern_fs = [([''w''], Dir), ([''w'', ''pats''], File pattern_text)]"

section \<open>Path arithmetic: the empty remainder\<close>

text \<open>
  Claim C7. For every \<open>root\<close> and every \<open>item\<close> that starts with the segments of
  \<open>root\<close>, \<^verbatim>\<open>remove_front_dir(root, item)\<close> should return the trailing segments of
  \<open>item\<close>, and \<^verbatim>\<open>remove_front_dir(".", item)\<close> should be \<open>item\<close> for every item.
  When nothing remains of \<open>item\<close> (it equals \<open>root\<close>, or both are \<^verbatim>\<open>.\<close>) the source
  reads \<^verbatim>\<open>result[0]\<close> of an empty list and raises \<^verbatim>\<open>IndexError\<close>; and the item
  \<^verbatim>\<open>/\<close> comes back as \<^verbatim>\<open>//\<close>, a different path.
\<close>

theorem remove_front_dir_raises_on_equal_paths:
  "remove_front_dir (Path ''a/b'') (Path ''a/b'') = Inl IndexError \<and>
   remove_front_dir (Path ''.'') (Path ''.'') = Inl IndexError \<and>
   remove_front_dir (Path ''.'') (Path ''/'') = Inr [''//'']"
  by code_simp

text \<open>
  Claim C8. \<^verbatim>\<open>relative_path(src, dest)\<close> should return \<open>dest\<close> when it is absolute
  and the chain of \<^verbatim>\<open>..\<close> followed by the rest of \<open>dest\<close> otherwise. For the
  relative path \<^verbatim>\<open>.\<close>, which has no parts, the source reads \<^verbatim>\<open>dest.parts[0]\<close> and
  raises \<^verbatim>\<open>IndexError\<close>.
\<close>

theorem relative_path_raises_on_empty_dest:
  "relative_path (Path ''/w'') (Path ''a'') (Path ''.'') = Inl IndexError"
  by code_simp

section \<open>Reading a pattern file: the empty line\<close>

lemma pattern_file_found:
  "stat (started_in_w pattern_fs) (Path ''pats'') = Found [''w'', ''pats''] (File pattern_text)"
  "exists (started_in_w pattern_fs) (Path ''pats'')"
  "is_file (started_in_w pattern_fs) (Path ''pats'')"
  by code_simp+

lemma pattern_file_read:
  "read_loop (rstrip_newline (fst (readline pattern_text))) (snd (readline pattern_text)) [] = [''a'']"
  by code_simp

text \<open>
  Claim C10. Every line of a pattern file that is neither empty nor a comment should
  become a pattern, wherever it stands. The loop of \<^verbatim>\<open>file_as_list\<close> ends at the
  first empty line, so of the file "comment, a, empty line, b" only \<open>a\<close> is read,
  where the specification's reading gives \<open>a\<close> and \<open>b\<close>.
\<close>

theorem file_as_list_stops_at_empty_line:
  "file_as_list (started_in_w pattern_fs) ''pats'' = Inr [''a''] \<and>
   spec_pattern_lines pattern_text = [''a'', ''b'']"
proof
  show "file_as_list (started_in_w pattern_fs) ''pats'' = Inr [''a'']"
    by (simp add: file_as_list_def pattern_file_found pattern_file_read)
  show "spec_pattern_lines pattern_text = [''a'', ''b'']"
    by code_simp
qed

section \<open>The cache of compiled patterns\<close>

text \<open>
  Claim C3. The two cached lists should be stored once per run and only read by the
  recursive calls. The source tests the keys \<^verbatim>\<open>"cl.cp"\<close> and \<^verbatim>\<open>"cl.ignore"\<close> but
  stores under \<^verbatim>\<open>"cl.cp_re"\<close> and \<^verbatim>\<open>"cl.ignore_re"\<close>, so the tested keys are never
  present: a run over \<^verbatim>\<open>in/a/x\<close> makes two calls of \<^verbatim>\<open>create_links\<close> and each of
  them compiles and stores both lists.
\<close>

theorem cache_is_stored_by_every_call:
  "raised (create_links literal_re 2 in_to_out None (started_in_w plain_fs)) = None \<and>
   stdout (final (create_links literal_re 2 in_to_out None (started_in_w plain_fs))) =
     [''mkdir out/a'', ''link in/a/x out/a/x''] \<and>
   cache_stores (final (create_links literal_re 2 in_to_out None (started_in_w plain_fs))) =
     [''cl.cp_re'', ''cl.ignore_re'', ''cl.cp_re'', ''cl.ignore_re'']"
  by code_simp

section \<open>Creating links\<close>

text \<open>
  Claim C5. On a free target the mutating executor should create a hard link when the
  flag is set. The source calls \<^verbatim>\<open>target.link_to(src)\<close>, which is
  \<^verbatim>\<open>os.link(target, src)\<close>: it asks for a new name \<open>src\<close> of the file \<open>target\<close>,
  and \<open>target\<close> was just found not to exist. The call fails with \<^verbatim>\<open>ENOENT\<close> and no
  link is made, for one call and for a whole run; without the flag the symbolic link is
  made and stores the relative path.
\<close>

theorem hard_link_mode_fails:
  "raised (LinkExecutor_link True [''in'', ''a'', ''x''] [''out'', ''x''] (started_in_w plain_fs)) =
     Some (OSError ENOENT) \<and>
   fs (final (LinkExecutor_link True [''in'', ''a'', ''x''] [''out'', ''x''] (started_in_w plain_fs))) =
     plain_fs \<and>
   raised (create_links literal_re 2 in_to_out_hard None (started_in_w plain_fs)) =
     Some (OSError ENOENT) \<and>
   raised (LinkExecutor_link False [''in'', ''a'', ''x''] [''out'', ''x''] (started_in_w plain_fs)) = None \<and>
   fs (final (LinkExecutor_link False [''in'', ''a'', ''x''] [''out'', ''x''] (started_in_w plain_fs))) =
     plain_fs @ [([''w'', ''out'', ''x''], Symlink ''../in/a/x'')]"
  by code_simp

section \<open>Facts about the model\<close>

lemma strip_common_Nil: "strip_common [] rest = ([], rest)"
  by (cases rest) simp_all

lemma strip_common_prefix: "strip_common xs (xs @ rest) = ([], rest)"
  by (induction xs) (simp_all add: strip_common_Nil)

lemma relative_path_error: "relative_path wd src dest = Inl e \<Longrightarrow> e = IndexError"
  by (auto simp: relative_path_def Let_def split: list.splits if_splits)




lemma walk_path_nofollow_Found:
  "walk_path F k follow cur todo = Found loc n \<Longrightarrow>
     (\<exists>t. n = Symlink t) \<or> walk_path F k True cur todo = Found loc n"
proof (induction F k follow cur todo rule: walk_path.induct)
  case (1 F k follow cur)
  then show ?case by (auto split: option.splits)
next
  case (2 F k follow cur s rest)
  show ?case
  proof (cases "s = ''..''")
    case True
    then show ?thesis using 2 by simp
  next
    case False
    note not_up = this
    show ?thesis
    proof (cases "node_at F (cur @ [s])")
      case None
      then show ?thesis using 2 not_up by (simp split: if_splits)
    next
      case (Some nd)
      show ?thesis
      proof (cases nd)
        case (File c)
        then show ?thesis using 2 not_up Some by (simp split: if_splits)
      next
        case Dir
        then show ?thesis using 2 not_up Some by simp
      next
        case (Symlink t)
        show ?thesis
        proof (cases "rest = [] \<and> \<not> follow")
          case True
          then show ?thesis using "2.prems" not_up Some Symlink by auto
        next
          case False
          show ?thesis
          proof (cases k)
            case 0
            then show ?thesis using "2.prems" not_up Some Symlink False by simp
          next
            case (Suc k')
            then have "walk_path F k' follow (if is_absolute (Path t) then [] else cur)
                (link_parts t @ rest) = Found loc n"
              using "2.prems" not_up Some Symlink False by simp
            then have "(\<exists>t. n = Symlink t) \<or>
                walk_path F k' True (if is_absolute (Path t) then [] else cur)
                  (link_parts t @ rest) = Found loc n"
              using "2.IH"(3) [OF not_up Some Symlink False Suc] by simp
            then show ?thesis using not_up Some Symlink Suc by auto
          qed
        qed
      qed
    qed
  qed
qed

lemma walk_path_follow_Found:
  "walk_path F k follow cur todo = Found loc n \<Longrightarrow>
     \<exists>loc' n'. walk_path F k False cur todo = Found loc' n'"
proof (induction F k follow cur todo rule: walk_path.induct)
  case (1 F k follow cur)
  then show ?case by (auto split: option.splits)
next
  case (2 F k follow cur s rest)
  show ?case
  proof (cases "s = ''..''")
    case True
    then show ?thesis using 2 by simp
  next
    case False
    note not_up = this
    show ?thesis
    proof (cases "node_at F (cur @ [s])")
      case None
      then show ?thesis using 2 not_up by (simp split: if_splits)
    next
      case (Some nd)
      show ?thesis
      proof (cases nd)
        case (File c)
        then show ?thesis using 2 not_up Some by (simp split: if_splits)
      next
        case Dir
        then show ?thesis using 2 not_up Some by simp
      next
        case (Symlink t)
        show ?thesis
        proof (cases "rest = []")
          case True
          then show ?thesis using not_up Some Symlink by simp
        next
          case False
          then have nonfinal: "\<not> (rest = [] \<and> \<not> follow)" by simp
          show ?thesis
          proof (cases k)
            case 0
            then show ?thesis using "2.prems" not_up Some Symlink False by simp
          next
            case (Suc k')
            then have "walk_path F k' follow (if is_absolute (Path t) then [] else cur)
                (link_parts t @ rest) = Found loc n"
              using "2.prems" not_up Some Symlink False by simp
            then have "\<exists>loc' n'.
                walk_path F k' False (if is_absolute (Path t) then [] else cur)
                  (link_parts t @ rest) = Found loc' n'"
              using "2.IH"(3) [OF not_up Some Symlink nonfinal Suc] by simp
            then show ?thesis using not_up Some Symlink Suc False by auto
          qed
        qed
      qed
    qed
  qed
qed

lemma present_iff: "(exists w p \<or> is_symlink w p) \<longleftrightarrow> (\<exists>loc n. lstat w p = Found loc n)"
proof
  assume "exists w p \<or> is_symlink w p"
  then show "\<exists>loc n. lstat w p = Found loc n"
  proof
    assume "exists w p"
    then obtain loc n where "stat w p = Found loc n"
      by (auto simp: exists_def split: lookup.splits)
    then show ?thesis
      using walk_path_follow_Found by (simp add: stat_def lstat_def namei_def Let_def)
  next
    assume "is_symlink w p"
    then show ?thesis by (auto simp: is_symlink_def split: lookup.splits)
  qed
next
  assume "\<exists>loc n. lstat w p = Found loc n"
  then obtain loc n where found: "lstat w p = Found loc n" by blast
  then have "(\<exists>t. n = Symlink t) \<or> stat w p = Found loc n"
    using walk_path_nofollow_Found by (simp add: stat_def lstat_def namei_def Let_def)
  then show "exists w p \<or> is_symlink w p"
    using found by (auto simp: exists_def is_symlink_def)
qed

lemma conflict_of_simps:
  "conflict_of (Inr w) = None"
  "conflict_of (Inl (OSError e, w)) = None"
  "conflict_of (Inl (IndexError, w)) = None"
  "conflict_of (Inl (FileReplacementError s, w)) = Some (FileReplacementError s)"
  "conflict_of (Inl (DirectoryReplacementError s, w)) = Some (DirectoryReplacementError s)"
  by (simp_all add: conflict_of_def raised_def)

lemma conflict_of_create_at: "conflict_of (create_at p n w) = None"
  by (simp add: create_at_def conflict_of_simps split: lookup.splits)

lemma conflict_of_os_link: "conflict_of (os_link a b w) = None"
  by (simp add: os_link_def conflict_of_simps conflict_of_create_at split: lookup.splits node.splits)





lemma not_matched: "\<not> any_match [] s"
  by simp

section \<open>The walker's treatment of an entry\<close>




text \<open>
  Counterexample to claim C1 as stated (a symbolic link is always linked as a leaf
  and never recursed into). \<^verbatim>\<open>in/s\<close> is a symbolic link to a directory holding \<^verbatim>\<open>x\<close>:
  the dry run reports \<^verbatim>\<open>mkdir out/s\<close> and a link for \<^verbatim>\<open>in/s/x\<close>, and the mutating
  run creates the directory \<^verbatim>\<open>out/s\<close> and the link \<^verbatim>\<open>out/s/x\<close>. The dangling link
  \<^verbatim>\<open>in/t\<close> is linked as a leaf.
\<close>

theorem symlink_to_directory_is_recursed_into:
  "is_symlink (started_in_w symlinked_dir_fs) [''in'', ''s''] \<and>
   raised (create_links literal_re 2 in_to_out None (started_in_w symlinked_dir_fs)) = None \<and>
   stdout (final (create_links literal_re 2 in_to_out None (started_in_w symlinked_dir_fs))) =
     [''mkdir out/s'', ''link in/s/x out/s/x'', ''link in/t out/t''] \<and>
   fs (final (create_links literal_re 2 in_to_out_really None (started_in_w symlinked_dir_fs))) =
     symlinked_dir_fs @
     [([''w'', ''out'', ''s''], Dir), ([''w'', ''out'', ''s'', ''x''], Symlink ''../../in/s/x''),
      ([''w'', ''out'', ''t''], Symlink ''../in/t'')]"
  by code_simp

text \<open>
  Claim C1, amended. The walker asks \<^verbatim>\<open>item.is_dir()\<close>, which follows symbolic
  links, and never asks whether the entry is a link. A symbolic link that is not
  ignored is therefore linked (or copied, per the copy patterns) as a leaf when it does
  not resolve to a directory; when it resolves to a directory and is not the
  destination path, the target directory is made and the walker recurses into it, as
  for a genuine directory.
\<close>

theorem symlink_entry_follows_is_dir:
  assumes "is_symlink w item"
    and "\<not> any_match ignore_files_re (as_posix item)"
    and "remove_front_dir (source a) item = Inr sub"
  shows "loop_body rc n a copy_files_re ignore_files_re item w =
     (if is_dir w item then
        (if item \<noteq> destination a then
           (case executor_mkdir (executor_of a) (joinpath (destination a) sub) w of
              Inl e \<Rightarrow> Inl e
            | Inr w' \<Rightarrow> create_links rc n a (Some item) w')
         else Inr w)
      else if any_match copy_files_re (as_posix item) then
        executor_copy (executor_of a) item (joinpath (destination a) sub) w
      else executor_link (executor_of a) item (joinpath (destination a) sub) w)"
  using assms by (simp add: Let_def)

lemma symlink_example:
  "is_symlink (started_in_w symlinked_dir_fs) [''in'', ''s'']"
  "is_dir (started_in_w symlinked_dir_fs) [''in'', ''s'']"
  "remove_front_dir (source in_to_out) [''in'', ''s''] = Inr [''s'']"
  "[''in'', ''s''] \<noteq> destination in_to_out"
  "joinpath (destination in_to_out) [''s''] = [''out'', ''s'']"
  "executor_of in_to_out = DryRunExecutor"
  "is_symlink (started_in_w symlinked_dir_fs) [''in'', ''t'']"
  "\<not> is_dir (started_in_w symlinked_dir_fs) [''in'', ''t'']"
  "remove_front_dir (source in_to_out) [''in'', ''t''] = Inr [''t'']"
  "joinpath (destination in_to_out) [''t''] = [''out'', ''t'']"
  by code_simp+

text \<open>
  Witness for C1: the link \<^verbatim>\<open>in/s\<close> to a directory is recursed into, the dangling link
  \<^verbatim>\<open>in/t\<close> is linked.
\<close>

theorem symlink_entry_follows_is_dir_witness:
  "loop_body literal_re 1 in_to_out [] [] [''in'', ''s''] (started_in_w symlinked_dir_fs) =
     (case DryRunExecutor_mkdir [''out'', ''s''] (started_in_w symlinked_dir_fs) of
        Inl e \<Rightarrow> Inl e
      | Inr w' \<Rightarrow> create_links literal_re 1 in_to_out (Some [''in'', ''s'']) w') \<and>
   loop_body literal_re 1 in_to_out [] [] [''in'', ''t''] (started_in_w symlinked_dir_fs) =
     DryRunExecutor_link [''in'', ''t''] [''out'', ''t''] (started_in_w symlinked_dir_fs)"
  using symlink_entry_follows_is_dir [OF symlink_example(1) not_matched symlink_example(3),
      of literal_re 1 "[]"]
    symlink_entry_follows_is_dir [OF symlink_example(7) not_matched symlink_example(9),
      of literal_re 1 "[]"]
  by (simp add: symlink_example)

text \<open>
  Counterexample to claim C2 as stated (a directory entry equal to the destination
  root is linked, or copied, as a leaf). With the destination \<^verbatim>\<open>in/out\<close> inside the
  source \<^verbatim>\<open>in\<close>, the run reports nothing and changes nothing, where a call of
  \<^verbatim>\<open>link\<close> for the entry would have reported, or made, \<^verbatim>\<open>in/out/out\<close>.
\<close>

theorem destination_entry_is_not_linked:
  "is_dir (started_in_w nested_fs) [''in'', ''out''] \<and>
   raised (create_links literal_re 2 in_to_nested None (started_in_w nested_fs)) = None \<and>
   stdout (final (create_links literal_re 2 in_to_nested None (started_in_w nested_fs))) = [] \<and>
   stdout (final (executor_link (executor_of in_to_nested) [''in'', ''out''] [''in'', ''out'', ''out'']
     (started_in_w nested_fs))) = [''link in/out in/out/out''] \<and>
   fs (final (create_links literal_re 2 in_to_nested_really None (started_in_w nested_fs))) = nested_fs \<and>
   fs (final (executor_link (executor_of in_to_nested_really) [''in'', ''out''] [''in'', ''out'', ''out'']
     (started_in_w nested_fs))) = nested_fs @ [([''w'', ''in'', ''out'', ''out''], Symlink ''.'')]"
  by code_simp

text \<open>
  Claim C2, amended. A directory entry that equals the destination root is skipped:
  the loop body returns the state unchanged, so the entry is not recreated, not
  recursed into, not linked and not copied, whatever the patterns are.
\<close>

theorem destination_directory_is_skipped:
  assumes "is_dir w item" and "item = destination a"
    and "remove_front_dir (source a) item = Inr sub"
  shows "loop_body rc n a copy_files_re ignore_files_re item w = Inr w"
  using assms by (simp add: Let_def)

lemma nested_example:
  "is_dir (started_in_w nested_fs) [''in'', ''out'']"
  "remove_front_dir (source in_to_nested_really) [''in'', ''out''] = Inr [''out'']"
  "[''in'', ''out''] = destination in_to_nested_really"
  by code_simp+

text \<open>
  Witness for C2: the entry \<^verbatim>\<open>in/out\<close> of the run \<^verbatim>\<open>deeplink in in/out\<close>.
\<close>

theorem destination_directory_is_skipped_witness:
  "loop_body literal_re 1 in_to_nested_really [] [] [''in'', ''out''] (started_in_w nested_fs) =
     Inr (started_in_w nested_fs)"
  using destination_directory_is_skipped [OF nested_example(1) nested_example(3) nested_example(2)]
  by simp

section \<open>The two executors\<close>






section \<open>Path arithmetic on clean segments\<close>

text \<open>
  What \<^verbatim>\<open>remove_front_dir\<close> and \<^verbatim>\<open>relative_path\<close> compute away from the empty
  remainder. Joining clean segments and parsing the string again gives the segments
  back, so \<^verbatim>\<open>remove_front_dir\<close> returns what is left of \<open>item\<close> after the longest
  common prefix whenever something is left, and \<^verbatim>\<open>relative_path\<close> returns one
  \<^verbatim>\<open>..\<close> for each segment left of the source followed by what is left of the
  destination.
\<close>

lemma split_sep_no_slash: "CHR ''/'' \<notin> set x \<Longrightarrow> split_sep x = [x]"
  by (induction x) auto

lemma split_sep_segment:
  "CHR ''/'' \<notin> set x \<Longrightarrow> split_sep (x @ CHR ''/'' # rest) = x # split_sep rest"
  by (induction x) auto

lemma split_join:
  "list_all clean_segment segs \<Longrightarrow> segs \<noteq> [] \<Longrightarrow> split_sep (join_sep segs) = segs"
  by (induction segs rule: join_sep.induct)
     (simp_all add: clean_segment_def split_sep_no_slash split_sep_segment)

lemma join_sep_head:
  "list_all clean_segment segs \<Longrightarrow> segs \<noteq> [] \<Longrightarrow>
     \<exists>c cs. join_sep segs = c # cs \<and> c \<noteq> CHR ''/''"
proof (induction segs rule: join_sep.induct)
  case 1
  then show ?case by simp
next
  case (2 x)
  then show ?case by (cases x) (auto simp: clean_segment_def)
next
  case (3 x y ys)
  then show ?case by (cases x) (auto simp: clean_segment_def)
qed

lemma filter_clean:
  "list_all clean_segment segs \<Longrightarrow> filter (\<lambda>x. x \<noteq> [] \<and> x \<noteq> ''.'') segs = segs"
  by (induction segs) (auto simp: clean_segment_def)

lemma Path_empty: "Path [] = []"
  by (simp add: Path_def)

lemma Path_join:
  assumes "list_all clean_segment segs"
  shows "Path (join_sep segs) = segs"
proof (cases "segs = []")
  case True
  then show ?thesis by (simp add: Path_empty)
next
  case False
  then obtain c cs where hd: "join_sep segs = c # cs" "c \<noteq> CHR ''/''"
    using join_sep_head assms by blast
  then have "Path (join_sep segs) = filter (\<lambda>x. x \<noteq> [] \<and> x \<noteq> ''.'') (split_sep (join_sep segs))"
    by (simp add: Path_def)
  then show ?thesis using assms False by (simp add: split_join filter_clean)
qed

lemma Path_rooted_join:
  assumes "list_all clean_segment segs" and "segs \<noteq> []"
  shows "Path (CHR ''/'' # join_sep (''/'' # segs)) = ''/'' # segs"
proof -
  obtain c cs where hd: "join_sep segs = c # cs" "c \<noteq> CHR ''/''"
    using join_sep_head assms by blast
  obtain s ss where segs: "segs = s # ss" using assms(2) by (cases segs) auto
  have str: "CHR ''/'' # join_sep (''/'' # segs) = ''///'' @ join_sep segs"
    using segs by simp
  have "Path (''///'' @ join_sep segs) =
      ''/'' # filter (\<lambda>x. x \<noteq> [] \<and> x \<noteq> ''.'') (split_sep (join_sep segs))"
    using hd by (simp add: Path_def)
  then show ?thesis using assms str by (simp add: split_join filter_clean)
qed

lemma strip_common_clean:
  "list_all P b \<Longrightarrow> list_all P (snd (strip_common a b))"
  by (induction a b rule: strip_common.induct) simp_all

lemma strip_common_spec:
  "\<exists>pre. a = pre @ fst (strip_common a b) \<and> b = pre @ snd (strip_common a b) \<and>
     (fst (strip_common a b) = [] \<or> snd (strip_common a b) = [] \<or>
      hd (fst (strip_common a b)) \<noteq> hd (snd (strip_common a b)))"
proof (induction a b rule: strip_common.induct)
  case (1 h hs r rs)
  show ?case
  proof (cases "h = r")
    case True
    then obtain pre where "hs = pre @ fst (strip_common hs rs) \<and> rs = pre @ snd (strip_common hs rs) \<and>
        (fst (strip_common hs rs) = [] \<or> snd (strip_common hs rs) = [] \<or>
         hd (fst (strip_common hs rs)) \<noteq> hd (snd (strip_common hs rs)))"
      using 1 by blast
    then show ?thesis using True by (intro exI [of _ "h # pre"]) simp
  next
    case False
    then show ?thesis by (intro exI [of _ "[]"]) simp
  qed
qed simp_all

lemma clean_not_root: "clean_segment r \<Longrightarrow> r \<noteq> ''/'' \<and> r \<noteq> ''//''"
  by (auto simp: clean_segment_def)

lemma remove_front_dir_remainder:
  assumes "list_all clean_segment item" and "snd (strip_common head_path item) \<noteq> []"
  shows "remove_front_dir head_path item = Inr (snd (strip_common head_path item))"
proof -
  obtain r rs where rem: "snd (strip_common head_path item) = r # rs"
    using assms(2) by (cases "snd (strip_common head_path item)") auto
  have clean: "list_all clean_segment (r # rs)"
    using strip_common_clean [OF assms(1), of head_path] rem by simp
  then have "r \<noteq> ''/''" using clean_not_root by simp
  then show ?thesis
    using rem Path_join [OF clean] by (simp add: remove_front_dir_def)
qed

lemma remove_front_dir_below_root:
  assumes "list_all clean_segment rest" and "rest \<noteq> []"
  shows "remove_front_dir root (root @ rest) = Inr rest"
proof -
  obtain r rs where rest: "rest = r # rs" using assms(2) by (cases rest) auto
  then have "r \<noteq> ''/''" using assms(1) clean_not_root by simp
  then show ?thesis
    using rest Path_join [OF assms(1)] by (simp add: remove_front_dir_def strip_common_prefix)
qed

lemma remove_front_dir_from_dot:
  assumes "list_all clean_segment rest" and "rest \<noteq> []"
  shows "remove_front_dir (Path ''.'') rest = Inr rest"
    and "remove_front_dir (Path ''.'') (''/'' # rest) = Inr (''/'' # rest)"
proof -
  have dot: "Path ''.'' = []" by (simp add: Path_def)
  show "remove_front_dir (Path ''.'') rest = Inr rest"
    using remove_front_dir_below_root [OF assms, of "[]"] dot by simp
  show "remove_front_dir (Path ''.'') (''/'' # rest) = Inr (''/'' # rest)"
    using Path_rooted_join [OF assms] by (simp add: remove_front_dir_def dot)
qed

lemma replicate_clean: "list_all clean_segment (replicate n ''..'')"
  by (induction n) (simp_all add: clean_segment_def)

lemma relative_path_absolute_dest:
  "relative_path wd src (''/'' # rest) = Inr (''/'' # rest)"
  by (simp add: relative_path_def)

lemma relative_path_relative_dest:
  assumes "wd = ''/'' # wds" and "list_all clean_segment wds"
    and "list_all clean_segment dest" and "dest \<noteq> []"
    and "absolute wd src = ''/'' # ss"
  shows "relative_path wd src dest =
           Inr (replicate (length (fst (strip_common ss (wds @ dest)))) ''..'' @
                snd (strip_common ss (wds @ dest)))"
proof -
  obtain d ds where dest: "dest = d # ds" using assms(4) by (cases dest) auto
  then have d: "d \<noteq> ''/''" "d \<noteq> ''//''" using assms(3) clean_not_root by auto
  then have rel: "\<not> is_absolute dest" using dest by (simp add: is_absolute_def)
  then have dlist: "absolute wd dest = ''/'' # wds @ dest"
    using assms(1) by (simp add: absolute_def)
  let ?r = "strip_common ss (wds @ dest)"
  have strip: "strip_common (absolute wd src) (absolute wd dest) = ?r"
    using assms(5) dlist by simp
  have clean: "list_all clean_segment (snd ?r)"
    using strip_common_clean [of clean_segment "wds @ dest" ss] assms(2,3) by simp
  have not_abs: "\<not> is_absolute (snd ?r)"
    using clean clean_not_root by (cases "snd ?r") (auto simp: is_absolute_def)
  show ?thesis
    using dest d strip Path_join [OF clean] Path_join [OF replicate_clean] not_abs
    by (simp add: relative_path_def Let_def joinpath_def)
qed

lemma relative_path_no_common_prefix:
  assumes "wd = ''/'' # wds" and "list_all clean_segment wds"
    and "list_all clean_segment dest" and "dest \<noteq> []"
    and "absolute wd src = ''/'' # s # ss" and "s \<noteq> hd (wds @ dest)"
  shows "relative_path wd src dest = Inr (replicate (length (s # ss)) ''..'' @ wds @ dest)"
proof -
  obtain x xs where "wds @ dest = x # xs" using assms(4) by (cases "wds @ dest") auto
  then have "strip_common (s # ss) (wds @ dest) = (s # ss, wds @ dest)"
    using assms(6) by simp
  then show ?thesis
    using relative_path_relative_dest [OF assms(1-5)] by simp
qed

section \<open>Creating links: conflicts and stored paths\<close>

text \<open>
  \<^verbatim>\<open>link\<close> raises its conflict exactly when an entry of any kind, a dangling
  symbolic link included, is present at the target. On a free target the mutating
  executor without the flag stores the relative path in a new symbolic link; with the
  flag it never returns normally and never changes the filesystem.
\<close>

lemma absent_iff: "(\<not> exists w p \<and> \<not> is_symlink w p) \<longleftrightarrow> (\<forall>loc n. lstat w p \<noteq> Found loc n)"
  using present_iff [of w p] by blast

lemma link_conflict_iff_present:
  "raised (LinkExecutor_link hard src target w) = Some (FileReplacementError (as_posix target))
     \<longleftrightarrow> (\<exists>loc n. lstat w target = Found loc n)"
  "raised (DryRunExecutor_link src target w) = Some (FileReplacementError (as_posix target))
     \<longleftrightarrow> (\<exists>loc n. lstat w target = Found loc n)"
proof -
  have "conflict_of (LinkExecutor_link hard src target w) =
      (if exists w target \<or> is_symlink w target
       then Some (FileReplacementError (as_posix target)) else None)"
    by (auto simp: LinkExecutor_link_def conflict_of_simps conflict_of_create_at
        conflict_of_os_link link_to_def symlink_to_def dest: relative_path_error split: sum.splits)
  then show "raised (LinkExecutor_link hard src target w) = Some (FileReplacementError (as_posix target))
     \<longleftrightarrow> (\<exists>loc n. lstat w target = Found loc n)"
    unfolding present_iff [symmetric]
    by (auto simp: conflict_of_def split: option.splits error.splits if_splits)
  show "raised (DryRunExecutor_link src target w) = Some (FileReplacementError (as_posix target))
     \<longleftrightarrow> (\<exists>loc n. lstat w target = Found loc n)"
    unfolding present_iff [symmetric]
    by (simp add: DryRunExecutor_link_def raised_def)
qed

lemma symlink_stores_relative_path:
  assumes "lstat w target = Missing loc"
    and "relative_path (cwd w) (parent target) src = Inr rel"
  shows "LinkExecutor_link False src target w =
           Inr (w\<lparr>fs := put loc (Symlink (as_posix rel)) (fs w)\<rparr>)"
proof -
  have "\<not> exists w target \<and> \<not> is_symlink w target"
    using assms(1) by (simp add: absent_iff)
  then show ?thesis
    using assms by (simp add: LinkExecutor_link_def symlink_to_def create_at_def)
qed

lemma hard_link_never_made:
  "raised (LinkExecutor_link True src target w) \<noteq> None \<and>
   fs (final (LinkExecutor_link True src target w)) = fs w"
proof (cases "exists w target \<or> is_symlink w target")
  case True
  then show ?thesis by (simp add: LinkExecutor_link_def raised_def final_def print_def)
next
  case False
  then have absent: "\<forall>loc n. lstat w target \<noteq> Found loc n"
    using absent_iff by blast
  show ?thesis
  proof (cases "relative_path (cwd w) (parent target) src")
    case (Inl e)
    then show ?thesis using False by (simp add: LinkExecutor_link_def raised_def final_def)
  next
    case (Inr rel)
    then show ?thesis using False absent
      by (cases "lstat w target")
         (simp_all add: LinkExecutor_link_def link_to_def os_link_def raised_def final_def)
  qed
qed

section \<open>The cache: every call stores\<close>

text \<open>
  Neither block of \<^verbatim>\<open>create_links\<close> ever defines the key it tests, so a call that
  starts with both keys absent compiles both lists, stores both, and leaves both keys
  absent for the next call.
\<close>

lemma cache_block_never_sets_tested_key:
  assumes "tested \<noteq> stored" and "cache w tested = None"
    and "cache_block rc tested stored patterns w = Inr (rs, w')"
  shows "cache w' tested = None \<and> cache_stores w' = cache_stores w @ [stored] \<and>
         compile_all rc patterns = Inr rs"
  using assms by (auto simp: cache_block_def split: sum.splits)

lemma every_call_compiles_again:
  assumes "cache w ''cl.cp'' = None" and "cache w ''cl.ignore'' = None"
    and "copy_files_block rc a w = Inr (cs, w1)"
    and "ignore_files_block rc a w1 = Inr (igs, w2)"
  shows "cache w2 ''cl.cp'' = None \<and> cache w2 ''cl.ignore'' = None \<and>
         cache_stores w2 = cache_stores w @ [''cl.cp_re'', ''cl.ignore_re'']"
proof -
  have one: "cache w1 ''cl.cp'' = None \<and> cache_stores w1 = cache_stores w @ [''cl.cp_re'']"
    using assms(1,3) cache_block_never_sets_tested_key [of "''cl.cp''" "''cl.cp_re''"]
    by (simp add: copy_files_block_def)
  have other: "cache w1 ''cl.ignore'' = None"
    using assms(1,2,3) by (auto simp: copy_files_block_def cache_block_def split: sum.splits)
  have two: "cache w2 ''cl.ignore'' = None \<and> cache_stores w2 = cache_stores w1 @ [''cl.ignore_re'']"
    using other assms(4) cache_block_never_sets_tested_key [of "''cl.ignore''" "''cl.ignore_re''"]
    by (simp add: ignore_files_block_def)
  have "cache w2 ''cl.cp'' = None"
    using one other assms(4) by (auto simp: ignore_files_block_def cache_block_def split: sum.splits)
  then show ?thesis using one two by simp
qed

section \<open>Reading a pattern file: up to the first empty line\<close>

text \<open>
  \<^verbatim>\<open>file_as_list\<close> returns the lines that are neither comments nor blank among
  the lines before the first empty line; it agrees with the specification on the files
  that have no empty line.
\<close>

lemma readline_shorter: "s \<noteq> [] \<Longrightarrow> length (snd (readline s)) < length s"
proof (induction s)
  case Nil
  then show ?case by simp
next
  case (Cons c cs)
  then show ?case by (cases cs) (auto split: prod.splits)
qed

lemma rstrip_newline_Cons:
  "c \<noteq> CHR 0x0A \<Longrightarrow> rstrip_newline (c # l) = c # rstrip_newline l"
proof -
  assume "c \<noteq> CHR 0x0A"
  then have "dropWhile (\<lambda>c. c = CHR 0x0A) (rev l @ [c]) = dropWhile (\<lambda>c. c = CHR 0x0A) (rev l) @ [c]"
    by (induction "rev l" arbitrary: l) (auto simp: dropWhile_append)
  then show ?thesis by (simp add: rstrip_newline_def)
qed

lemma text_lines_readline:
  "s \<noteq> [] \<Longrightarrow>
     text_lines s = rstrip_newline (fst (readline s)) # text_lines (snd (readline s))"
proof (induction s)
  case Nil
  then show ?case by simp
next
  case (Cons c cs)
  show ?case
  proof (cases "c = CHR 0x0A")
    case True
    then show ?thesis by (simp add: rstrip_newline_def)
  next
    case False
    show ?thesis
    proof (cases cs)
      case Nil
      then show ?thesis using False by (simp add: rstrip_newline_def)
    next
      case (Cons d ds)
      then have "text_lines cs = rstrip_newline (fst (readline cs)) # text_lines (snd (readline cs))"
        using Cons.IH by simp
      then show ?thesis
        using False by (simp add: rstrip_newline_Cons split: prod.splits)
    qed
  qed
qed

lemma read_loop_lines:
  "read_loop (rstrip_newline (fst (readline s))) (snd (readline s)) acc =
     acc @ filter (\<lambda>l. \<not> re_comment_match l \<and> \<not> re_empty_match l)
             (takeWhile (\<lambda>l. l \<noteq> []) (text_lines s))"
proof (induction "length s" arbitrary: s acc rule: less_induct)
  case less
  show ?case
  proof (cases "s = []")
    case True
    then show ?thesis by (simp add: read_loop.simps rstrip_newline_def)
  next
    case False
    let ?line = "rstrip_newline (fst (readline s))"
    let ?rest = "snd (readline s)"
    have lines: "text_lines s = ?line # text_lines ?rest"
      using False by (rule text_lines_readline)
    show ?thesis
    proof (cases "?line = []")
      case True
      then show ?thesis using lines by (simp add: read_loop.simps)
    next
      case nonempty: False
      have "length ?rest < length s" using False by (rule readline_shorter)
      then have IH: "read_loop (rstrip_newline (fst (readline ?rest))) (snd (readline ?rest)) acc' =
          acc' @ filter (\<lambda>l. \<not> re_comment_match l \<and> \<not> re_empty_match l)
                  (takeWhile (\<lambda>l. l \<noteq> []) (text_lines ?rest))" for acc'
        using less by blast
      show ?thesis
        using nonempty lines IH by (subst read_loop.simps) simp
    qed
  qed
qed

lemma file_as_list_reads_up_to_empty_line:
  assumes "stat w (Path filename) = Found loc (File content)"
  shows "file_as_list w filename =
     Inr (filter (\<lambda>l. \<not> re_comment_match l \<and> \<not> re_empty_match l)
            (takeWhile (\<lambda>l. l \<noteq> []) (text_lines content)))"
  using assms read_loop_lines [of content "[]"]
  by (simp add: file_as_list_def exists_def is_file_def)

lemma file_as_list_meets_spec_without_empty_lines:
  assumes "stat w (Path filename) = Found loc (File content)"
    and "[] \<notin> set (text_lines content)"
  shows "file_as_list w filename = Inr (spec_pattern_lines content)"
proof -
  have "\<forall>l \<in> set (text_lines content). l \<noteq> []"
    using assms(2) by metis
  then have all: "takeWhile (\<lambda>l. l \<noteq> []) (text_lines content) = text_lines content"
    by (simp only: takeWhile_eq_all_conv)
  show ?thesis
    unfolding spec_pattern_lines_def file_as_list_reads_up_to_empty_line [OF assms(1)] all ..
qed

end
